theory Spec2Isabelle
  imports Complex_Main "HOL-Library.Word"
begin

section \<open>Element values, errors and memory\<close>

text \<open>
  The containers of \<^verbatim>\<open>time_vector.h\<close> are templates over the element type \<open>T\<close>; the
  model instantiates \<open>T\<close> with \<^verbatim>\<open>double\<close>. Only the distinctions the container itself
  looks at are kept: a finite value, the two infinities and NaN.
\<close>

datatype double = Finite real | PosInf | NegInf | NaN

text \<open>
  Modelled from the spec: \<^verbatim>\<open>isValidNumber\<close> is declared in \<^verbatim>\<open>util/base/include/util.h\<close>,
  which is not among the sources. The specification calls a number valid when it is
  neither NaN nor infinite.
\<close>

definition isValidNumber :: "double \<Rightarrow> bool" where
  "isValidNumber x = (case x of Finite r \<Rightarrow> True | PosInf \<Rightarrow> False | NegInf \<Rightarrow> False | NaN \<Rightarrow> False)"

text \<open>\<^verbatim>\<open>operator==\<close> of \<^verbatim>\<open>double\<close>: NaN compares unequal to everything, itself included.\<close>

definition eq_double :: "double \<Rightarrow> double \<Rightarrow> bool" where
  "eq_double x y = (x \<noteq> NaN \<and> y \<noteq> NaN \<and> x = y)"

text \<open>
  What stops a debug build: the two assertions of the index operators, the assertion of
  \<^verbatim>\<open>assign\<close>, a read of a cell that holds no value, and overflow of a signed \<^verbatim>\<open>int\<close>.
\<close>

datatype error = BoundsAssertion | ValidNumberAssertion | InvalidAccess | SignedOverflow

type_synonym uint = "32 word"
type_synonym size_t = "64 word"

text \<open>
  Memory is flat: an address counts elements, \<open>mem\<close> gives the value of every cell that
  holds one, and \<open>brk\<close> is the first address that \<^verbatim>\<open>new[]\<close> has not handed out yet.
  A pointer \<^verbatim>\<open>T*\<close> is an address; \<^verbatim>\<open>p + i\<close> is address addition.
\<close>

record heap =
  mem :: "nat \<rightharpoonup> double"
  brk :: nat

text \<open>\<^verbatim>\<open>new T[n]\<close>: reserves \<open>n\<close> cells; a \<^verbatim>\<open>double\<close> cell holds no value until it is written.\<close>

definition new_array :: "nat \<Rightarrow> heap \<Rightarrow> nat \<times> heap" where
  "new_array n h = (brk h, h\<lparr>brk := brk h + n\<rparr>)"

text \<open>\<^verbatim>\<open>delete[] p\<close> for an array of \<open>n\<close> cells: the cells hold nothing afterwards.\<close>

definition delete_array :: "nat \<Rightarrow> nat \<Rightarrow> heap \<Rightarrow> heap" where
  "delete_array p n h = h\<lparr>mem := (\<lambda>a. if p \<le> a \<and> a < p + n then None else mem h a)\<rparr>"

text \<open>A store through a reference \<^verbatim>\<open>T&\<close> or a dereferenced iterator: \<^verbatim>\<open>*p = x\<close>.\<close>

definition store :: "nat \<Rightarrow> double \<Rightarrow> heap \<Rightarrow> heap" where
  "store p x h = h\<lparr>mem := (mem h)(p \<mapsto> x)\<rparr>"

text \<open>\<^verbatim>\<open>std::uninitialized_fill(first, first + n, x)\<close>.\<close>

primrec uninitialized_fill :: "nat \<Rightarrow> nat \<Rightarrow> double \<Rightarrow> (nat \<rightharpoonup> double) \<Rightarrow> (nat \<rightharpoonup> double)" where
  "uninitialized_fill 0 first x m = m"
| "uninitialized_fill (Suc n) first x m = uninitialized_fill n (Suc first) x (m(first \<mapsto> x))"

text \<open>\<^verbatim>\<open>std::copy(first, first + n, dest)\<close>: \<^verbatim>\<open>*dest++ = *first++\<close>, \<open>n\<close> times.\<close>

primrec copy_loop :: "nat \<Rightarrow> nat \<Rightarrow> nat \<Rightarrow> (nat \<rightharpoonup> double) \<Rightarrow> error + (nat \<rightharpoonup> double)" where
  "copy_loop 0 first dest m = Inr m"
| "copy_loop (Suc n) first dest m =
     (case m first of
        None \<Rightarrow> Inl InvalidAccess
      | Some x \<Rightarrow> copy_loop n (Suc first) (Suc dest) (m(dest \<mapsto> x)))"

text \<open>\<^verbatim>\<open>std::equal(first1, first1 + n, first2)\<close>: stops with false at the first mismatch.\<close>

primrec equal_loop :: "nat \<Rightarrow> nat \<Rightarrow> nat \<Rightarrow> (nat \<rightharpoonup> double) \<Rightarrow> error + bool" where
  "equal_loop 0 first1 first2 m = Inr True"
| "equal_loop (Suc n) first1 first2 m =
     (case m first1 of
        None \<Rightarrow> Inl InvalidAccess
      | Some x \<Rightarrow>
          (case m first2 of
             None \<Rightarrow> Inl InvalidAccess
           | Some y \<Rightarrow> if eq_double x y then equal_loop n (Suc first1) (Suc first2) m
                       else Inr False))"

section \<open>TimeVectorBase\<close>

text \<open>
  The two data members of \<^verbatim>\<open>TimeVectorBase<T>\<close>. The derived classes extend the record,
  so a function on \<open>'a TimeVectorBase_scheme\<close> is a member function they inherit.
\<close>

record TimeVectorBase =
  mData :: nat
  mSize :: size_t

text \<open>The adapted base pointer of a \<^verbatim>\<open>TimeVectorBaseIter\<close>.\<close>

datatype iterator = Iter nat

text \<open>\<^verbatim>\<open>init(aSize, aDefaultValue)\<close>: sets both members and fills the new array.\<close>

definition init :: "'a TimeVectorBase_scheme \<Rightarrow> uint \<Rightarrow> double \<Rightarrow> heap \<Rightarrow> 'a TimeVectorBase_scheme \<times> heap" where
  "init this aSize aDefaultValue h =
     (let sz = (ucast aSize :: size_t);
          (p, h1) = new_array (unat sz) h
      in (this\<lparr>mData := p, mSize := sz\<rparr>,
          h1\<lparr>mem := uninitialized_fill (unat sz) p aDefaultValue (mem h1)\<rparr>))"

text \<open>\<^verbatim>\<open>clear()\<close>: \<^verbatim>\<open>delete[] mData\<close>.\<close>

definition clear :: "'a TimeVectorBase_scheme \<Rightarrow> heap \<Rightarrow> heap" where
  "clear this h = delete_array (mData this) (unat (mSize this)) h"

text \<open>The constructor \<^verbatim>\<open>TimeVectorBase(aSize, aDefaultValue)\<close>; the members hold nothing
  meaningful before \<open>init\<close> assigns them.\<close>

definition TimeVectorBase_ctor :: "uint \<Rightarrow> double \<Rightarrow> heap \<Rightarrow> TimeVectorBase \<times> heap" where
  "TimeVectorBase_ctor aSize aDefaultValue h = init \<lparr>mData = 0, mSize = 0\<rparr> aSize aDefaultValue h"

definition size_tv :: "'a TimeVectorBase_scheme \<Rightarrow> size_t" where
  "size_tv this = mSize this"

definition begin_it :: "'a TimeVectorBase_scheme \<Rightarrow> iterator" where
  "begin_it this = Iter (mData this)"

definition end_it :: "'a TimeVectorBase_scheme \<Rightarrow> iterator" where
  "end_it this = Iter (mData this + unat (size_tv this))"

text \<open>
  \<^verbatim>\<open>last()\<close>, both overloads: \<^verbatim>\<open>mData + std::max( int( size() ) - 1, 0 )\<close>. The conversion of
  the 64-bit size to \<^verbatim>\<open>int\<close> keeps the low 32 bits, read as two's complement; the
  subtraction is signed and must not leave the range of \<^verbatim>\<open>int\<close>.
\<close>

definition last_it :: "'a TimeVectorBase_scheme \<Rightarrow> error + iterator" where
  "last_it this =
     (let n = sint (ucast (size_tv this) :: 32 word)
      in if n - 1 < - (2 ^ 31) then Inl SignedOverflow
         else Inr (Iter (mData this + nat (max (n - 1) 0))))"

text \<open>\<^verbatim>\<open>std::copy(first, last, dest)\<close> and \<^verbatim>\<open>std::equal(first1, last1, first2)\<close> on iterators.\<close>

fun std_copy :: "iterator \<Rightarrow> iterator \<Rightarrow> iterator \<Rightarrow> (nat \<rightharpoonup> double) \<Rightarrow> error + (nat \<rightharpoonup> double)" where
  "std_copy (Iter first) (Iter lst) (Iter dest) m = copy_loop (lst - first) first dest m"

fun std_equal :: "iterator \<Rightarrow> iterator \<Rightarrow> iterator \<Rightarrow> (nat \<rightharpoonup> double) \<Rightarrow> error + bool" where
  "std_equal (Iter first1) (Iter last1) (Iter first2) m = equal_loop (last1 - first1) first1 first2 m"

text \<open>The copy constructor: \<^verbatim>\<open>init( aOther.mSize, T() )\<close>, then the element copy. The
  64-bit size is passed where \<open>init\<close> takes an \<^verbatim>\<open>unsigned int\<close>.\<close>

definition TimeVectorBase_copy_ctor :: "'a TimeVectorBase_scheme \<Rightarrow> heap \<Rightarrow> error + (TimeVectorBase \<times> heap)" where
  "TimeVectorBase_copy_ctor aOther h =
     (let (this, h1) = init \<lparr>mData = 0, mSize = 0\<rparr> (ucast (mSize aOther)) (Finite 0) h
      in case std_copy (begin_it aOther) (end_it aOther) (begin_it this) (mem h1) of
           Inl e \<Rightarrow> Inl e
         | Inr m \<Rightarrow> Inr (this, h1\<lparr>mem := m\<rparr>))"

text \<open>
  \<^verbatim>\<open>operator=\<close>. A reference to an object is the object's address together with its
  members; \<^verbatim>\<open>this != &aOther\<close> compares the two addresses.
\<close>

definition assign_op :: "nat \<times> 'a TimeVectorBase_scheme \<Rightarrow> nat \<times> 'a TimeVectorBase_scheme \<Rightarrow> heap
    \<Rightarrow> error + ('a TimeVectorBase_scheme \<times> heap)" where
  "assign_op this aOther h =
     (if fst this \<noteq> fst aOther then
        (let h0 = clear (snd this) h;
             (t, h1) = init (snd this) (ucast (size_tv (snd aOther))) (Finite 0) h0
         in case std_copy (begin_it (snd aOther)) (end_it (snd aOther)) (begin_it t) (mem h1) of
              Inl e \<Rightarrow> Inl e
            | Inr m \<Rightarrow> Inr (t, h1\<lparr>mem := m\<rparr>))
      else Inr (snd this, h))"

text \<open>\<^verbatim>\<open>operator==\<close>: \<^verbatim>\<open>size() == aOther.size() && equal( begin(), end(), aOther.begin() )\<close>.\<close>

definition equals_op :: "'a TimeVectorBase_scheme \<Rightarrow> 'b TimeVectorBase_scheme \<Rightarrow> heap \<Rightarrow> error + bool" where
  "equals_op this aOther h =
     (if size_tv this = size_tv aOther
      then std_equal (begin_it this) (end_it this) (begin_it aOther) (mem h)
      else Inr False)"

text \<open>\<^verbatim>\<open>assign(aPositions, aValue)\<close>: the loop counter is an \<^verbatim>\<open>unsigned int\<close> compared with
  the 64-bit \<open>aPositions\<close>; under the assertion it never wraps, because no size exceeds
  32 bits.\<close>

primrec assign_loop :: "nat \<Rightarrow> nat \<Rightarrow> double \<Rightarrow> (nat \<rightharpoonup> double) \<Rightarrow> (nat \<rightharpoonup> double)" where
  "assign_loop 0 p x m = m"
| "assign_loop (Suc n) p x m = assign_loop n (Suc p) x (m(p \<mapsto> x))"

definition assign_tv :: "'a TimeVectorBase_scheme \<Rightarrow> size_t \<Rightarrow> double \<Rightarrow> heap \<Rightarrow> error + heap" where
  "assign_tv this aPositions aValue h =
     (if \<not> aPositions \<le> size_tv this then Inl BoundsAssertion
      else Inr (h\<lparr>mem := assign_loop (unat aPositions) (mData this) aValue (mem h)\<rparr>))"

section \<open>YearVector\<close>

record YearVector = TimeVectorBase +
  mStartYear :: uint
  mEndYear :: uint

text \<open>The constructor: the base is built with \<^verbatim>\<open>aEndYear - aStartYear + 1\<close>, computed in
  \<^verbatim>\<open>unsigned int\<close>.\<close>

definition YearVector_ctor :: "uint \<Rightarrow> uint \<Rightarrow> double \<Rightarrow> heap \<Rightarrow> YearVector \<times> heap" where
  "YearVector_ctor aStartYear aEndYear aDefaultValue h =
     (let (b, h1) = TimeVectorBase_ctor (aEndYear - aStartYear + 1) aDefaultValue h
      in (\<lparr>mData = mData b, mSize = mSize b, mStartYear = aStartYear, mEndYear = aEndYear\<rparr>, h1))"

text \<open>
  \<^verbatim>\<open>YearVector::operator[]\<close>, both overloads. The year is a \<^verbatim>\<open>size_t\<close>; the two members
  are widened for the comparison and the subtraction. The result is the reference
  returned: the address of the element.
\<close>

definition YearVector_index :: "YearVector \<Rightarrow> size_t \<Rightarrow> heap \<Rightarrow> error + nat" where
  "YearVector_index this aYear h =
     (if \<not> (aYear \<ge> ucast (mStartYear this) \<and> aYear \<le> ucast (mEndYear this)) then Inl BoundsAssertion
      else case mem h (mData this + unat (aYear - ucast (mStartYear this))) of
             None \<Rightarrow> Inl InvalidAccess
           | Some x \<Rightarrow>
               if \<not> isValidNumber x then Inl ValidNumberAssertion
               else Inr (mData this + unat (aYear - ucast (mStartYear this))))"

text \<open>
  \<^verbatim>\<open>YearVector::find\<close>, the const overload. In range the source writes
  \<^verbatim>\<open>const_iterator( aYear - mStartYear )\<close>: the iterator is built from the offset itself,
  where \<open>begin\<close>, \<open>end\<close> and \<open>last\<close> build theirs from \<^verbatim>\<open>mData\<close> plus an offset.
  The other overload differs only in passing \<^verbatim>\<open>this\<close> as a second argument, for which
  \<^verbatim>\<open>TimeVectorBaseIter\<close> declares no constructor.
\<close>

definition find_yv :: "YearVector \<Rightarrow> uint \<Rightarrow> iterator" where
  "find_yv this aYear =
     (if aYear < mStartYear this \<or> aYear > mEndYear this then end_it this
      else Iter (unat (aYear - mStartYear this)))"

section \<open>PeriodVector\<close>

text \<open>
  A \<^verbatim>\<open>PeriodVector\<close> adds no member. Its constructor sizes the base with
  \<^verbatim>\<open>scenario->getModeltime()->getmaxper()\<close>, which is outside the sources: the value, as the
  \<^verbatim>\<open>unsigned int\<close> the base constructor receives, is the parameter \<open>maxper\<close>.
\<close>

type_synonym PeriodVector = TimeVectorBase

definition PeriodVector_ctor :: "uint \<Rightarrow> double \<Rightarrow> heap \<Rightarrow> PeriodVector \<times> heap" where
  "PeriodVector_ctor maxper aDefaultValue h = TimeVectorBase_ctor maxper aDefaultValue h"

text \<open>\<^verbatim>\<open>PeriodVector::operator[]\<close>, both overloads.\<close>

definition PeriodVector_index :: "PeriodVector \<Rightarrow> size_t \<Rightarrow> heap \<Rightarrow> error + nat" where
  "PeriodVector_index this aIndex h =
     (if \<not> aIndex < size_tv this then Inl BoundsAssertion
      else case mem h (mData this + unat aIndex) of
             None \<Rightarrow> Inl InvalidAccess
           | Some x \<Rightarrow>
               if \<not> isValidNumber x then Inl ValidNumberAssertion
               else Inr (mData this + unat aIndex))"

section \<open>Invariants of the containers\<close>

text \<open>The values of a vector, slot by slot; a slot that holds no value reads \<open>None\<close>.\<close>

definition elements :: "'a TimeVectorBase_scheme \<Rightarrow> heap \<Rightarrow> double option list" where
  "elements v h = map (\<lambda>i. mem h (mData v + i)) [0..<unat (mSize v)]"

text \<open>Every slot of the vector holds a value.\<close>

definition live :: "'a TimeVectorBase_scheme \<Rightarrow> heap \<Rightarrow> bool" where
  "live v h = list_all (\<lambda>i. mem h (mData v + i) \<noteq> None) [0..<unat (mSize v)]"

text \<open>
  What every constructor establishes for the vector it builds: the slots hold values,
  the array lies in the part of memory handed out so far, and the size came through
  an \<^verbatim>\<open>unsigned int\<close>.
\<close>

definition owned :: "'a TimeVectorBase_scheme \<Rightarrow> heap \<Rightarrow> bool" where
  "owned v h = (live v h \<and> mData v + unat (mSize v) \<le> brk h \<and> unat (mSize v) < 2 ^ 32)"

text \<open>Two vectors own separate arrays.\<close>

definition separate :: "'a TimeVectorBase_scheme \<Rightarrow> 'b TimeVectorBase_scheme \<Rightarrow> bool" where
  "separate v w = (mData v + unat (mSize v) \<le> mData w \<or> mData w + unat (mSize w) \<le> mData v)"

text \<open>A \<^verbatim>\<open>YearVector\<close> whose size matches its range of years, as constructed from a start
  year not after the end year.\<close>

definition YearVector_inv :: "YearVector \<Rightarrow> heap \<Rightarrow> bool" where
  "YearVector_inv v h =
     (mStartYear v \<le> mEndYear v
      \<and> unat (mSize v) = unat (mEndYear v) - unat (mStartYear v) + 1
      \<and> live v h)"

text \<open>The empty memory; address 0 is the null pointer and is never handed out.\<close>

definition heap0 :: heap where
  "heap0 = \<lparr>mem = Map.empty, brk = 1\<rparr>"

section \<open>EquilibriumOrchestrator (World)\<close>

text \<open>
  \<^verbatim>\<open>world.h\<close> declares \<^verbatim>\<open>std::vector<Region*> regions\<close> and the switch
  \<^verbatim>\<open>doCalibrations\<close>; \<^verbatim>\<open>Region\<close> is only forward-declared, so the type of a region is a
  parameter.
\<close>

record 'r World =
  regions :: "'r list"
  doCalibrations :: bool

text \<open>
  Modelled from the spec: the body of \<^verbatim>\<open>World::isAllCalibrated\<close> is in \<^verbatim>\<open>world.cpp\<close>,
  which is not among the sources. The specification has it true only if every owned
  unit reports calibrated for the period; the report of one unit, with the same three
  arguments, is the parameter \<open>unitCalibrated\<close>. Every unit is asked, in order, and
  the answers are accumulated.
\<close>

definition isAllCalibrated :: "('r \<Rightarrow> int \<Rightarrow> real \<Rightarrow> bool \<Rightarrow> bool) \<Rightarrow> 'r World \<Rightarrow> int \<Rightarrow> real \<Rightarrow> bool \<Rightarrow> bool" where
  "isAllCalibrated unitCalibrated w period calAccuracy printWarnings =
     fold (\<lambda>r allCal. allCal \<and> unitCalibrated r period calAccuracy printWarnings) (regions w) True"

section \<open>Example objects\<close>

text \<open>
  Objects built by the constructors, one after the other in the same memory: a vector
  for the years 2000 to 2002 and two period vectors of three periods, the second one
  filled with ones. They are the concrete inputs at which the theorems are evaluated.
\<close>

definition example_years :: "YearVector \<times> heap" where
  "example_years = YearVector_ctor 2000 2002 (Finite 0) heap0"

definition example_periods :: "PeriodVector \<times> heap" where
  "example_periods = PeriodVector_ctor 3 (Finite 0) (snd example_years)"

definition example_ones :: "PeriodVector \<times> heap" where
  "example_ones = PeriodVector_ctor 3 (Finite 1) (snd example_periods)"

section \<open>Auxiliary facts\<close>

subsection \<open>Conversions between the two unsigned widths\<close>

lemma unat_widen: "unat (ucast (w :: uint) :: size_t) = unat w"
proof -
  have "unat w < 2 ^ 32" using unsigned_less [of w, where 'a = nat] by simp
  then have "unat w < 2 ^ 64" by (rule less_trans) simp
  then show ?thesis by (simp add: unsigned_ucast_eq take_bit_nat_eq_self)
qed

lemma unat_narrow: "unat (s :: size_t) < 2 ^ 32 \<Longrightarrow> unat (ucast s :: uint) = unat s"
  by (simp add: unsigned_ucast_eq take_bit_nat_eq_self)

lemma unat_uint_bound: "unat (w :: uint) < 4294967296"
  using unsigned_less [of w, where 'a = nat] by simp

lemma uninitialized_fill_apply:
  "uninitialized_fill n p x m a = (if p \<le> a \<and> a < p + n then Some x else m a)"
  by (induction n arbitrary: p m) auto

lemma assign_loop_apply:
  "assign_loop n p x m a = (if p \<le> a \<and> a < p + n then Some x else m a)"
  by (induction n arbitrary: p m) auto

lemma init_fst: "fst (init this aSize d h) = this\<lparr>mData := brk h, mSize := ucast aSize\<rparr>"
  by (simp add: init_def new_array_def Let_def)

lemma init_brk: "brk (snd (init this aSize d h)) = brk h + unat aSize"
  by (simp add: init_def new_array_def Let_def unat_widen)

lemma init_mem:
  "mem (snd (init this aSize d h)) a =
     (if brk h \<le> a \<and> a < brk h + unat aSize then Some d else mem h a)"
  by (simp add: init_def new_array_def Let_def uninitialized_fill_apply unat_widen)

lemma live_iff: "live v h \<longleftrightarrow> (\<forall>i < unat (mSize v). mem h (mData v + i) \<noteq> None)"
  by (auto simp: live_def list_all_iff)

lemma YearVector_ctor_fst:
  "fst (YearVector_ctor s e d h) =
     \<lparr>mData = brk h, mSize = ucast (e - s + 1), mStartYear = s, mEndYear = e\<rparr>"
  by (simp add: YearVector_ctor_def TimeVectorBase_ctor_def split_beta init_fst)

lemma YearVector_ctor_mem:
  "mem (snd (YearVector_ctor s e d h)) a =
     (if brk h \<le> a \<and> a < brk h + unat (e - s + 1) then Some d else mem h a)"
  by (simp add: YearVector_ctor_def TimeVectorBase_ctor_def split_beta init_mem)

lemma YearVector_ctor_brk:
  "brk (snd (YearVector_ctor s e d h)) = brk h + unat (e - s + 1)"
  by (simp add: YearVector_ctor_def TimeVectorBase_ctor_def split_beta init_brk)

lemma year_count:
  fixes s e :: uint
  assumes "s \<le> e" and "unat e - unat s + 1 < 2 ^ 32"
  shows "unat (e - s + 1) = unat e - unat s + 1"
proof -
  have "unat (e - s) = unat e - unat s" using assms(1) by (rule unat_sub)
  moreover have "unat (e - s) + unat (1 :: uint) < 2 ^ LENGTH(32)"
    using assms(2) calculation by simp
  ultimately show ?thesis by (simp add: unat_add_lem [THEN iffD1])
qed

lemma year_offset:
  fixes s :: uint and y :: size_t
  assumes "ucast s \<le> y"
  shows "unat (y - ucast s) = unat y - unat s"
  using unat_sub [OF assms] by (simp add: unat_widen)

lemma year_in_range:
  fixes s e :: uint and y :: size_t
  assumes "ucast s \<le> y" and "y \<le> ucast e"
  shows "unat s \<le> unat y" and "unat y \<le> unat e"
  using assms by (simp_all add: word_le_nat_alt unat_widen)

subsection \<open>Constructors and the invariants\<close>

lemma heap0_simps [simp]: "mem heap0 = Map.empty" "brk heap0 = 1"
  by (simp_all add: heap0_def)

lemma YearVector_ctor_inv:
  assumes "s \<le> e" and "unat e - unat s + 1 < 2 ^ 32"
  shows "YearVector_inv (fst (YearVector_ctor s e d h)) (snd (YearVector_ctor s e d h))"
  using year_count [OF assms]
  by (simp add: YearVector_inv_def live_iff YearVector_ctor_fst YearVector_ctor_mem unat_widen assms(1))

lemma TimeVectorBase_ctor_live:
  "live (fst (TimeVectorBase_ctor n d h)) (snd (TimeVectorBase_ctor n d h))"
  by (simp add: live_iff TimeVectorBase_ctor_def init_fst init_mem unat_widen)

lemma TimeVectorBase_ctor_owned:
  "owned (fst (TimeVectorBase_ctor n d h)) (snd (TimeVectorBase_ctor n d h))"
  using unat_uint_bound [of n]
  by (simp add: owned_def live_iff TimeVectorBase_ctor_def init_fst init_mem init_brk unat_widen)

lemma store_mem: "mem (store r x h) a = (if a = r then Some x else mem h a)"
  by (simp add: store_def)

lemma owned_cell:
  assumes "owned a h" and "i < unat (mSize a)"
  shows "mem h (mData a + i) \<noteq> None" and "mData a + i < brk h"
  using assms by (auto simp: owned_def live_iff)

subsection \<open>The index operators\<close>

lemma YearVector_inv_slot:
  fixes y :: size_t
  assumes inv: "YearVector_inv v h"
      and lo: "ucast (mStartYear v) \<le> y" and hi: "y \<le> ucast (mEndYear v)"
  shows "unat (y - ucast (mStartYear v)) = unat y - unat (mStartYear v)"
    and "unat y - unat (mStartYear v) < unat (mSize v)"
    and "\<exists>x. mem h (mData v + (unat y - unat (mStartYear v))) = Some x"
proof -
  show "unat (y - ucast (mStartYear v)) = unat y - unat (mStartYear v)"
    using lo by (rule year_offset)
  have "unat (mStartYear v) \<le> unat y" "unat y \<le> unat (mEndYear v)"
    using year_in_range [OF lo hi] by simp_all
  then show inside: "unat y - unat (mStartYear v) < unat (mSize v)"
    using inv by (simp add: YearVector_inv_def)
  have "live v h" using inv by (simp add: YearVector_inv_def)
  then show "\<exists>x. mem h (mData v + (unat y - unat (mStartYear v))) = Some x"
    using inside by (auto simp: live_iff)
qed

lemma YearVector_index_outside:
  "y < ucast (mStartYear v) \<or> ucast (mEndYear v) < y \<Longrightarrow> YearVector_index v y h = Inl BoundsAssertion"
  by (auto simp: YearVector_index_def)

lemma YearVector_index_inside:
  assumes "ucast (mStartYear v) \<le> y" and "y \<le> ucast (mEndYear v)"
      and "unat (y - ucast (mStartYear v)) = k"
      and "mem h (mData v + k) = Some x"
  shows "YearVector_index v y h = (if isValidNumber x then Inr (mData v + k) else Inl ValidNumberAssertion)"
  using assms by (simp add: YearVector_index_def)

lemma PeriodVector_index_outside:
  "size_tv p \<le> i \<Longrightarrow> PeriodVector_index p i h = Inl BoundsAssertion"
  by (auto simp: PeriodVector_index_def)

lemma PeriodVector_index_inside:
  assumes "i < size_tv p" and "mem h (mData p + unat i) = Some x"
  shows "PeriodVector_index p i h = (if isValidNumber x then Inr (mData p + unat i) else Inl ValidNumberAssertion)"
  using assms by (simp add: PeriodVector_index_def)

lemma YearVector_index_Inr:
  assumes "YearVector_index v y h = Inr r"
  shows "ucast (mStartYear v) \<le> y" and "y \<le> ucast (mEndYear v)"
    and "r = mData v + unat (y - ucast (mStartYear v))"
    and "\<exists>x. mem h r = Some x \<and> isValidNumber x"
  using assms by (auto simp: YearVector_index_def split: if_splits option.splits)

lemma PeriodVector_index_Inr:
  assumes "PeriodVector_index p i h = Inr r"
  shows "i < size_tv p" and "r = mData p + unat i"
    and "\<exists>x. mem h r = Some x \<and> isValidNumber x"
  using assms by (auto simp: PeriodVector_index_def split: if_splits option.splits)

subsection \<open>The element loops\<close>

lemma copy_loop_result:
  assumes "\<forall>i<n. m (first + i) \<noteq> None" and "first + n \<le> dest"
  shows "copy_loop n first dest m =
           Inr (\<lambda>a. if dest \<le> a \<and> a < dest + n then m (first + (a - dest)) else m a)"
  using assms
proof (induction n arbitrary: first dest m)
  case 0
  then show ?case by (auto simp: fun_eq_iff)
next
  case (Suc n)
  from Suc.prems(1) obtain x where x: "m first = Some x"
    by (metis add.right_neutral not_None_eq zero_less_Suc)
  have src: "\<forall>i<n. (m(dest \<mapsto> x)) (Suc first + i) \<noteq> None"
  proof (intro allI impI)
    fix i assume "i < n"
    then have "m (first + Suc i) \<noteq> None" using Suc.prems(1) by (metis Suc_less_eq)
    moreover have "Suc first + i \<noteq> dest" using \<open>i < n\<close> Suc.prems(2) by simp
    ultimately show "(m(dest \<mapsto> x)) (Suc first + i) \<noteq> None" by simp
  qed
  have ord: "Suc first + n \<le> Suc dest" using Suc.prems(2) by simp
  have "copy_loop (Suc n) first dest m = copy_loop n (Suc first) (Suc dest) (m(dest \<mapsto> x))"
    by (simp add: x)
  also have "\<dots> = Inr (\<lambda>a. if Suc dest \<le> a \<and> a < Suc dest + n
                           then (m(dest \<mapsto> x)) (Suc first + (a - Suc dest))
                           else (m(dest \<mapsto> x)) a)"
    using src ord by (rule Suc.IH)
  also have "(\<lambda>a. if Suc dest \<le> a \<and> a < Suc dest + n
                           then (m(dest \<mapsto> x)) (Suc first + (a - Suc dest))
                           else (m(dest \<mapsto> x)) a)
       = (\<lambda>a. if dest \<le> a \<and> a < dest + Suc n then m (first + (a - dest)) else m a)"
  proof
    fix a
    consider "a = dest" | "Suc dest \<le> a" "a < Suc dest + n" | "a < dest" | "Suc dest + n \<le> a"
      by linarith
    then show "(if Suc dest \<le> a \<and> a < Suc dest + n
                           then (m(dest \<mapsto> x)) (Suc first + (a - Suc dest))
                           else (m(dest \<mapsto> x)) a)
       = (if dest \<le> a \<and> a < dest + Suc n then m (first + (a - dest)) else m a)"
    proof cases
      case 1
      then show ?thesis by (simp add: x)
    next
      case 2
      then have "Suc first + (a - Suc dest) \<noteq> dest" using Suc.prems(2) by linarith
      moreover have "Suc first + (a - Suc dest) = first + (a - dest)" using 2 by linarith
      ultimately show ?thesis using 2 by simp
    next
      case 3
      then show ?thesis by simp
    next
      case 4
      then show ?thesis by simp
    qed
  qed
  finally show ?case .
qed

lemma equal_loop_result:
  assumes "\<forall>i<n. m (first1 + i) \<noteq> None \<and> m (first2 + i) \<noteq> None"
  shows "equal_loop n first1 first2 m =
           Inr (\<forall>i<n. \<exists>x y. m (first1 + i) = Some x \<and> m (first2 + i) = Some y \<and> eq_double x y)"
  using assms
proof (induction n arbitrary: first1 first2)
  case 0
  then show ?case by simp
next
  case (Suc n)
  from Suc.prems obtain x y where x: "m first1 = Some x" and y: "m first2 = Some y"
    by (metis add.right_neutral not_None_eq zero_less_Suc)
  have rest: "\<forall>i<n. m (Suc first1 + i) \<noteq> None \<and> m (Suc first2 + i) \<noteq> None"
    using Suc.prems by (metis Suc_less_eq add_Suc_shift)
  have split: "(\<forall>i<Suc n. \<exists>x y. m (first1 + i) = Some x \<and> m (first2 + i) = Some y \<and> eq_double x y)
      \<longleftrightarrow> eq_double x y
          \<and> (\<forall>i<n. \<exists>x y. m (Suc first1 + i) = Some x \<and> m (Suc first2 + i) = Some y \<and> eq_double x y)"
    (is "?L \<longleftrightarrow> ?R")
  proof
    assume l: ?L
    then have "\<exists>x y. m (first1 + 0) = Some x \<and> m (first2 + 0) = Some y \<and> eq_double x y" by blast
    then have "eq_double x y" using x y by simp
    moreover have "\<forall>i<n. \<exists>x y. m (Suc first1 + i) = Some x \<and> m (Suc first2 + i) = Some y \<and> eq_double x y"
    proof (intro allI impI)
      fix i assume "i < n"
      then have "Suc i < Suc n" by simp
      with l have "\<exists>x y. m (first1 + Suc i) = Some x \<and> m (first2 + Suc i) = Some y \<and> eq_double x y"
        by blast
      then show "\<exists>x y. m (Suc first1 + i) = Some x \<and> m (Suc first2 + i) = Some y \<and> eq_double x y"
        by simp
    qed
    ultimately show ?R by simp
  next
    assume r: ?R
    show ?L
    proof (intro allI impI)
      fix i assume i: "i < Suc n"
      show "\<exists>x y. m (first1 + i) = Some x \<and> m (first2 + i) = Some y \<and> eq_double x y"
      proof (cases i)
        case 0
        then show ?thesis using r x y by simp
      next
        case (Suc k)
        then have "k < n" using i by simp
        with r have "\<exists>x y. m (Suc first1 + k) = Some x \<and> m (Suc first2 + k) = Some y \<and> eq_double x y"
          by blast
        then show ?thesis using Suc by simp
      qed
    qed
  qed
  show ?case
  proof (cases "eq_double x y")
    case True
    then show ?thesis using Suc.IH [OF rest] split by (simp add: x y)
  next
    case False
    then show ?thesis using split by (simp add: x y)
  qed
qed

lemma ucast_round_trip:
  fixes s :: size_t
  assumes "unat s < 2 ^ 32"
  shows "(ucast (ucast s :: uint) :: size_t) = s"
proof -
  have "unat (ucast (ucast s :: uint) :: size_t) = unat s"
    using assms by (simp add: unat_widen unat_narrow)
  then show ?thesis by (simp add: word_unat_eq_iff)
qed

lemma sint_narrow:
  fixes s :: size_t
  assumes "unat s < 2 ^ 31"
  shows "sint (ucast s :: 32 word) = int (unat s)"
proof -
  have u: "unat (ucast s :: 32 word) = unat s"
    using assms by (intro unat_narrow) simp
  have e: "uint (ucast s :: 32 word) = int (unat s)"
    using u by (metis of_nat_unat [of "ucast s :: 32 word"])
  have "int (unat s) < 2 ^ 31" using assms by (simp add: nat_int_comparison)
  moreover have "- (2 ^ 31) \<le> int (unat s)" by (rule order_trans [of _ 0]) simp_all
  ultimately have "signed_take_bit 31 (int (unat s)) = int (unat s)"
    by (rule signed_take_bit_int_eq_self [rotated])
  then show ?thesis
    by (simp only: sint_uint e) simp
qed

subsection \<open>Copy construction, assignment and comparison\<close>

lemma copy_ctor_result:
  assumes own: "owned a h"
  shows "\<exists>h'. TimeVectorBase_copy_ctor a h = Inr (\<lparr>mData = brk h, mSize = mSize a\<rparr>, h')
            \<and> brk h' = brk h + unat (mSize a)
            \<and> (\<forall>p. mem h' p = (if brk h \<le> p \<and> p < brk h + unat (mSize a)
                                then mem h (mData a + (p - brk h)) else mem h p))"
proof -
  let ?n = "unat (mSize a)"
  let ?I = "init \<lparr>mData = 0, mSize = 0\<rparr> (ucast (mSize a)) (Finite 0) h"
  have small: "?n < 2 ^ 32" using own by (simp add: owned_def)
  have n: "unat (ucast (mSize a) :: uint) = ?n" using small by (rule unat_narrow)
  have obj: "fst ?I = \<lparr>mData = brk h, mSize = mSize a\<rparr>"
    using ucast_round_trip [OF small] by (simp add: init_fst)
  have m1: "\<And>p. mem (snd ?I) p = (if brk h \<le> p \<and> p < brk h + ?n then Some (Finite 0) else mem h p)"
    by (simp add: init_mem n)
  have b1: "brk (snd ?I) = brk h + ?n" by (simp add: init_brk n)
  have src: "\<forall>i<?n. mem (snd ?I) (mData a + i) \<noteq> None"
    using owned_cell [OF own] by (simp add: m1)
  have ord: "mData a + ?n \<le> brk h" using own by (simp add: owned_def)
  note c = copy_loop_result [OF src ord]
  let ?m = "\<lambda>p. if brk h \<le> p \<and> p < brk h + ?n then mem (snd ?I) (mData a + (p - brk h)) else mem (snd ?I) p"
  have "TimeVectorBase_copy_ctor a h = Inr (\<lparr>mData = brk h, mSize = mSize a\<rparr>, (snd ?I)\<lparr>mem := ?m\<rparr>)"
    using c obj
    by (simp add: TimeVectorBase_copy_ctor_def split_beta begin_it_def end_it_def size_tv_def)
  moreover have "brk ((snd ?I)\<lparr>mem := ?m\<rparr>) = brk h + ?n" by (simp add: b1)
  moreover have "\<forall>p. mem ((snd ?I)\<lparr>mem := ?m\<rparr>) p =
      (if brk h \<le> p \<and> p < brk h + ?n then mem h (mData a + (p - brk h)) else mem h p)"
    using ord by (auto simp: m1)
  ultimately show ?thesis by blast
qed

lemma assign_op_result:
  assumes own: "owned a h" and own_t: "owned t h" and sep: "separate t a" and ne: "p \<noteq> q"
  shows "\<exists>h'. assign_op (p, t) (q, a) h = Inr (t\<lparr>mData := brk h, mSize := mSize a\<rparr>, h')
            \<and> brk h' = brk h + unat (mSize a)
            \<and> (\<forall>c. mem h' c = (if brk h \<le> c \<and> c < brk h + unat (mSize a)
                                then mem h (mData a + (c - brk h))
                                else if mData t \<le> c \<and> c < mData t + unat (mSize t) then None
                                else mem h c))"
proof -
  let ?n = "unat (mSize a)"
  let ?h0 = "clear t h"
  let ?I = "init t (ucast (mSize a)) (Finite 0) ?h0"
  have small: "?n < 2 ^ 32" using own by (simp add: owned_def)
  have n: "unat (ucast (mSize a) :: uint) = ?n" using small by (rule unat_narrow)
  have m0: "\<And>c. mem ?h0 c = (if mData t \<le> c \<and> c < mData t + unat (mSize t) then None else mem h c)"
    by (simp add: clear_def delete_array_def)
  have b0: "brk ?h0 = brk h" by (simp add: clear_def delete_array_def)
  have obj: "fst ?I = t\<lparr>mData := brk h, mSize := mSize a\<rparr>"
    using ucast_round_trip [OF small] by (simp add: init_fst b0)
  have m1: "\<And>c. mem (snd ?I) c = (if brk h \<le> c \<and> c < brk h + ?n then Some (Finite 0) else mem ?h0 c)"
    by (simp add: init_mem n b0)
  have b1: "brk (snd ?I) = brk h + ?n" by (simp add: init_brk n b0)
  have ord: "mData a + ?n \<le> brk h" using own by (simp add: owned_def)
  have ord_t: "mData t + unat (mSize t) \<le> brk h" using own_t by (simp add: owned_def)
  have keep: "mem ?h0 (mData a + i) = mem h (mData a + i)" if "i < ?n" for i
    using sep that by (auto simp: m0 separate_def)
  have src: "\<forall>i<?n. mem (snd ?I) (mData a + i) \<noteq> None"
  proof (intro allI impI)
    fix i assume i: "i < ?n"
    have "mData a + i < brk h" using owned_cell(2) [OF own i] .
    then have "mem (snd ?I) (mData a + i) = mem h (mData a + i)" using keep [OF i] by (simp add: m1)
    then show "mem (snd ?I) (mData a + i) \<noteq> None" using owned_cell(1) [OF own i] by simp
  qed
  note c = copy_loop_result [OF src ord]
  let ?m = "\<lambda>c. if brk h \<le> c \<and> c < brk h + ?n then mem (snd ?I) (mData a + (c - brk h)) else mem (snd ?I) c"
  have "assign_op (p, t) (q, a) h = Inr (t\<lparr>mData := brk h, mSize := mSize a\<rparr>, (snd ?I)\<lparr>mem := ?m\<rparr>)"
    using c obj ne
    by (simp add: assign_op_def split_beta begin_it_def end_it_def size_tv_def Let_def)
  moreover have "brk ((snd ?I)\<lparr>mem := ?m\<rparr>) = brk h + ?n" by (simp add: b1)
  moreover have "\<forall>c. mem ((snd ?I)\<lparr>mem := ?m\<rparr>) c =
      (if brk h \<le> c \<and> c < brk h + ?n then mem h (mData a + (c - brk h))
       else if mData t \<le> c \<and> c < mData t + unat (mSize t) then None
       else mem h c)"
  proof
    fix c
    show "mem ((snd ?I)\<lparr>mem := ?m\<rparr>) c =
      (if brk h \<le> c \<and> c < brk h + ?n then mem h (mData a + (c - brk h))
       else if mData t \<le> c \<and> c < mData t + unat (mSize t) then None
       else mem h c)"
    proof (cases "brk h \<le> c \<and> c < brk h + ?n")
      case True
      then have i: "c - brk h < ?n" by linarith
      have "mData a + (c - brk h) < brk h" using owned_cell(2) [OF own i] .
      then have "mem (snd ?I) (mData a + (c - brk h)) = mem h (mData a + (c - brk h))"
        using keep [OF i] by (simp add: m1)
      then show ?thesis using True by simp
    next
      case False
      have "mem ((snd ?I)\<lparr>mem := ?m\<rparr>) c = ?m c" by simp
      also have "\<dots> = mem (snd ?I) c" by (simp only: False if_False)
      also have "\<dots> = mem ?h0 c" by (simp only: m1 False if_False)
      also have "\<dots> = (if mData t \<le> c \<and> c < mData t + unat (mSize t) then None else mem h c)"
        by (rule m0)
      finally show ?thesis by (simp only: False if_False)
    qed
  qed
  ultimately show ?thesis by blast
qed

lemma equals_op_result:
  assumes "owned a h" and "owned b h"
  shows "equals_op a b h =
           Inr (size_tv a = size_tv b
                \<and> (\<forall>i < unat (size_tv a). \<exists>x y. mem h (mData a + i) = Some x
                       \<and> mem h (mData b + i) = Some y \<and> eq_double x y))"
proof (cases "size_tv a = size_tv b")
  case True
  then have eq: "mSize b = mSize a" by (simp add: size_tv_def)
  have "\<forall>i<unat (mSize a). mem h (mData a + i) \<noteq> None \<and> mem h (mData b + i) \<noteq> None"
    using owned_cell(1) [OF assms(1)] owned_cell(1) [OF assms(2)] by (simp add: eq)
  from equal_loop_result [OF this] True show ?thesis
    by (simp add: equals_op_def begin_it_def end_it_def size_tv_def)
next
  case False
  then show ?thesis by (simp add: equals_op_def)
qed

lemma elements_below:
  assumes "mData a + unat (mSize a) \<le> lo" and "\<forall>c<lo. mem k c = mem h c"
  shows "elements a k = elements a h"
  using assms by (simp add: elements_def)

lemma store_below: "c < lo \<Longrightarrow> lo \<le> r \<Longrightarrow> mem (store r x h) c = mem h c"
  by (simp add: store_def)

lemma assign_tv_below:
  assumes "assign_tv t k x h = Inr h'" and "c < mData t"
  shows "mem h' c = mem h c"
  using assms by (auto simp: assign_tv_def assign_loop_apply split: if_splits)

lemma deep_copy:
  assumes own: "owned a h"
      and res: "brk h' = brk h + unat (mSize a)"
               "\<forall>c. mem h' c = (if brk h \<le> c \<and> c < brk h + unat (mSize a)
                                then mem h (mData a + (c - brk h)) else R c)"
      and rest: "\<forall>i<unat (mSize a). R (mData a + i) = mem h (mData a + i)"
      and t: "mData t = brk h" "mSize t = mSize a"
  shows "elements t h' = elements a h"
    and "elements a h' = elements a h"
    and "\<forall>j x. j < unat (size_tv t) \<longrightarrow> elements a (store (mData t + j) x h') = elements a h"
    and "\<forall>k x h''. assign_tv t k x h' = Inr h'' \<longrightarrow> elements a h'' = elements a h"
proof -
  have ord: "mData a + unat (mSize a) \<le> brk h" using own by (simp add: owned_def)
  show "elements t h' = elements a h"
    by (simp add: elements_def t res(2))
  have a_same: "mem h' (mData a + i) = mem h (mData a + i)" if "i < unat (mSize a)" for i
  proof -
    have "\<not> (brk h \<le> mData a + i \<and> mData a + i < brk h + unat (mSize a))"
      using owned_cell(2) [OF own that] by simp
    then have "mem h' (mData a + i) = R (mData a + i)" by (simp only: res(2) if_False)
    then show ?thesis using rest that by simp
  qed
  then show same: "elements a h' = elements a h" by (simp add: elements_def)
  show "\<forall>j x. j < unat (size_tv t) \<longrightarrow> elements a (store (mData t + j) x h') = elements a h"
  proof (intro allI impI)
    fix j x
    have "\<forall>c<brk h. mem (store (mData t + j) x h') c = mem h' c"
      by (simp add: store_below t(1))
    with ord have "elements a (store (mData t + j) x h') = elements a h'" by (rule elements_below)
    then show "elements a (store (mData t + j) x h') = elements a h" using same by simp
  qed
  show "\<forall>k x h''. assign_tv t k x h' = Inr h'' \<longrightarrow> elements a h'' = elements a h"
  proof (intro allI impI)
    fix k x h'' assume "assign_tv t k x h' = Inr h''"
    then have "\<forall>c<brk h. mem h'' c = mem h' c" using assign_tv_below [of t k x h' h''] by (simp add: t(1))
    with ord have "elements a h'' = elements a h'" by (rule elements_below)
    then show "elements a h'' = elements a h" using same by simp
  qed
qed

lemma length_elements: "length (elements v h) = unat (size_tv v)"
  by (simp add: elements_def size_tv_def)

lemma upt_3: "[0..<3] = [0, 1, 2 :: nat]"
  by code_simp

subsection \<open>The example objects\<close>

lemma example_years_fst:
  "fst example_years = \<lparr>mData = 1, mSize = 3, mStartYear = 2000, mEndYear = 2002\<rparr>"
  by (simp add: example_years_def YearVector_ctor_fst)

lemma example_periods_fst: "fst example_periods = \<lparr>mData = 4, mSize = 3\<rparr>"
  by (simp add: example_periods_def example_years_def PeriodVector_ctor_def
      TimeVectorBase_ctor_def init_fst YearVector_ctor_brk)

lemma example_periods_mem:
  "mem (snd example_periods) a = (if 1 \<le> a \<and> a < 7 then Some (Finite 0) else None)"
  by (simp add: example_periods_def example_years_def PeriodVector_ctor_def
      TimeVectorBase_ctor_def init_mem YearVector_ctor_brk YearVector_ctor_mem)

lemma example_periods_brk: "brk (snd example_periods) = 7"
  by (simp add: example_periods_def example_years_def PeriodVector_ctor_def
      TimeVectorBase_ctor_def init_brk YearVector_ctor_brk)

lemma example_years_inv: "YearVector_inv (fst example_years) (snd example_periods)"
  by (simp add: YearVector_inv_def live_iff example_years_fst example_periods_mem)

lemma example_periods_live: "live (fst example_periods) (snd example_periods)"
  by (simp add: live_iff example_periods_fst example_periods_mem)

lemma example_ones_fst: "fst example_ones = \<lparr>mData = 7, mSize = 3\<rparr>"
  by (simp add: example_ones_def PeriodVector_ctor_def TimeVectorBase_ctor_def init_fst
      example_periods_brk)

lemma example_ones_mem:
  "mem (snd example_ones) a =
     (if 7 \<le> a \<and> a < 10 then Some (Finite 1) else if 1 \<le> a \<and> a < 7 then Some (Finite 0) else None)"
  by (simp add: example_ones_def PeriodVector_ctor_def TimeVectorBase_ctor_def init_mem
      example_periods_brk example_periods_mem)

lemma example_ones_brk: "brk (snd example_ones) = 10"
  by (simp add: example_ones_def PeriodVector_ctor_def TimeVectorBase_ctor_def init_brk
      example_periods_brk)

lemma example_owned:
  "owned (fst example_periods) (snd example_ones)" "owned (fst example_ones) (snd example_ones)"
  by (simp_all add: owned_def live_iff example_periods_fst example_ones_fst example_ones_mem
      example_ones_brk)

subsection \<open>Accumulating the reports of the units\<close>

lemma fold_all:
  "fold (\<lambda>r allCal. allCal \<and> P r) rs b \<longleftrightarrow> b \<and> (\<forall>r \<in> set rs. P r)"
  by (induction rs arbitrary: b) auto

section \<open>Construction of a YearVector\<close>

text \<open>
  Claim C4, as the code has it. For a start year not after the end year, and a count
  of years \<open>endYear - startYear + 1\<close> that an \<^verbatim>\<open>unsigned int\<close> can hold, the constructed
  \<^verbatim>\<open>YearVector\<close> has exactly that size, every slot holds the default value, and indexing
  by a year \<open>y\<close> of the range addresses the backing position \<open>y - startYear\<close>, which lies
  inside the array: the reference to that slot is returned when the default value
  passes \<^verbatim>\<open>isValidNumber\<close>, and the assertion on that slot fails otherwise.
\<close>

theorem YearVector_ctor_size_slots_index:
  assumes range: "aStartYear \<le> aEndYear"
      and fits: "unat aEndYear - unat aStartYear + 1 < 2 ^ 32"
  shows "case YearVector_ctor aStartYear aEndYear d h of (v, h') \<Rightarrow>
           unat (size_tv v) = unat aEndYear - unat aStartYear + 1
         \<and> (\<forall>i < unat (size_tv v). mem h' (mData v + i) = Some d)
         \<and> (\<forall>y. ucast aStartYear \<le> y \<and> y \<le> ucast aEndYear \<longrightarrow>
               unat y - unat aStartYear < unat (size_tv v)
             \<and> YearVector_index v y h' =
                 (if isValidNumber d then Inr (mData v + (unat y - unat aStartYear))
                  else Inl ValidNumberAssertion))"
proof -
  obtain v h' where ctor: "YearVector_ctor aStartYear aEndYear d h = (v, h')"
    by (cases "YearVector_ctor aStartYear aEndYear d h")
  have v: "v = \<lparr>mData = brk h, mSize = ucast (aEndYear - aStartYear + 1),
                mStartYear = aStartYear, mEndYear = aEndYear\<rparr>"
    using YearVector_ctor_fst [of aStartYear aEndYear d h] ctor by simp
  have h': "\<And>a. mem h' a =
      (if brk h \<le> a \<and> a < brk h + unat (aEndYear - aStartYear + 1) then Some d else mem h a)"
    using YearVector_ctor_mem [of aStartYear aEndYear d h] ctor by simp
  have n: "unat (aEndYear - aStartYear + 1) = unat aEndYear - unat aStartYear + 1"
    using range fits by (rule year_count)
  have sz: "unat (size_tv v) = unat aEndYear - unat aStartYear + 1"
    by (simp add: v size_tv_def unat_widen n)
  have slots: "\<forall>i < unat (size_tv v). mem h' (mData v + i) = Some d"
    using sz by (simp add: h' n v)
  have idx: "unat y - unat aStartYear < unat (size_tv v)
             \<and> YearVector_index v y h' =
                 (if isValidNumber d then Inr (mData v + (unat y - unat aStartYear))
                  else Inl ValidNumberAssertion)"
    if lo: "ucast aStartYear \<le> y" and hi: "y \<le> ucast aEndYear" for y
  proof -
    have off: "unat (y - ucast aStartYear) = unat y - unat aStartYear"
      using lo by (rule year_offset)
    have le: "unat aStartYear \<le> unat y" "unat y \<le> unat aEndYear"
      using year_in_range [OF lo hi] by simp_all
    then have inside: "unat y - unat aStartYear < unat (size_tv v)"
      using sz by simp
    then have "mem h' (mData v + (unat y - unat aStartYear)) = Some d"
      using slots by simp
    then show ?thesis
      using inside lo hi by (simp add: YearVector_index_def v off)
  qed
  show ?thesis
    using sz slots idx by (simp add: ctor)
qed

text \<open>The theorem at the years 2000 to 2002 with default value 0.\<close>

theorem YearVector_ctor_size_slots_index_witness:
  "(2000 :: uint) \<le> 2002 \<and> unat (2002 :: uint) - unat (2000 :: uint) + 1 < (2 :: nat) ^ 32
   \<and> unat (size_tv (fst (YearVector_ctor 2000 2002 (Finite 0) heap0))) = 3
   \<and> YearVector_index (fst (YearVector_ctor 2000 2002 (Finite 0) heap0)) 2001
        (snd (YearVector_ctor 2000 2002 (Finite 0) heap0))
      = Inr (mData (fst (YearVector_ctor 2000 2002 (Finite 0) heap0)) + 1)"
proof -
  have r: "(2000 :: uint) \<le> 2002" by simp
  have f: "unat (2002 :: uint) - unat (2000 :: uint) + 1 < (2 :: nat) ^ 32" by simp
  have y: "ucast (2000 :: uint) \<le> (2001 :: size_t) \<and> (2001 :: size_t) \<le> ucast (2002 :: uint)" by simp
  show ?thesis
    using r f y YearVector_ctor_size_slots_index [OF r f, of "Finite 0" heap0]
    by (simp add: split_beta isValidNumber_def)
qed

text \<open>
  Claim C4 as written, for every pair with the start year not after the end year, fails
  at the pair \<open>(0, 4294967295)\<close>: the count of years is \<open>2 ^ 32\<close>, and the constructor's
  \<^verbatim>\<open>aEndYear - aStartYear + 1\<close> wraps to size 0.
\<close>

theorem YearVector_ctor_full_range_counterexample:
  "(0 :: uint) \<le> 4294967295
   \<and> unat (size_tv (fst (YearVector_ctor 0 4294967295 (Finite 0) heap0))) = 0
   \<and> unat (size_tv (fst (YearVector_ctor 0 4294967295 (Finite 0) heap0)))
       \<noteq> unat (4294967295 :: uint) - unat (0 :: uint) + 1"
  by (simp add: YearVector_ctor_fst size_tv_def)

section \<open>Finding a year\<close>

text \<open>
  Claim C5 says that \<open>find\<close> returns an iterator to the slot of the year when the year
  is in range, and the end iterator otherwise. The code at a vector for the years 2000
  to 2010, whose array starts at address 1: for the year 2005 the range check passes
  and the iterator is built from the offset 5 alone, which is not the slot of 2005 at
  \<open>mData + 5\<close>; for the year 2011, outside the range, the result is the end iterator.
\<close>

theorem find_yv_in_range_evaluation:
  "find_yv (fst (YearVector_ctor 2000 2010 (Finite 0) heap0)) 2005 = Iter 5
   \<and> find_yv (fst (YearVector_ctor 2000 2010 (Finite 0) heap0)) 2005
       \<noteq> Iter (mData (fst (YearVector_ctor 2000 2010 (Finite 0) heap0)) + unat (2005 - 2000 :: uint))
   \<and> find_yv (fst (YearVector_ctor 2000 2010 (Finite 0) heap0)) 2011
       = end_it (fst (YearVector_ctor 2000 2010 (Finite 0) heap0))"
  by (simp add: YearVector_ctor_fst find_yv_def end_it_def size_tv_def)

section \<open>Copies, self-assignment and equality\<close>

text \<open>
  Claim C6. For vectors as the constructors build them, each owning its array:
  the copy constructor returns a vector with the same values in a new array, it leaves
  the values of the original as they were, and neither a store into a slot of the copy
  nor \<open>assign\<close> on the copy changes a value of the original; the same holds for
  \<^verbatim>\<open>operator=\<close> between two different objects with separate arrays; assigning an object
  to itself returns the object and the memory unchanged; and \<^verbatim>\<open>operator==\<close> is true
  exactly when the sizes are equal and the values are equal slot by slot, under the
  \<^verbatim>\<open>==\<close> of the element type.
\<close>

theorem copy_is_deep_and_equality:
  fixes a b :: "'a TimeVectorBase_scheme"
  assumes own_a: "owned a h" and own_b: "owned b h"
  shows "(\<exists>c h'. TimeVectorBase_copy_ctor a h = Inr (c, h')
            \<and> elements c h' = elements a h
            \<and> elements a h' = elements a h
            \<and> (\<forall>j x. j < unat (size_tv c) \<longrightarrow> elements a (store (mData c + j) x h') = elements a h)
            \<and> (\<forall>k x h''. assign_tv c k x h' = Inr h'' \<longrightarrow> elements a h'' = elements a h))
       \<and> (p \<noteq> q \<and> separate b a \<longrightarrow>
            (\<exists>t h'. assign_op (p, b) (q, a) h = Inr (t, h')
              \<and> elements t h' = elements a h
              \<and> elements a h' = elements a h
              \<and> (\<forall>j x. j < unat (size_tv t) \<longrightarrow> elements a (store (mData t + j) x h') = elements a h)
              \<and> (\<forall>k x h''. assign_tv t k x h' = Inr h'' \<longrightarrow> elements a h'' = elements a h)))
       \<and> assign_op (p, a) (p, a) h = Inr (a, h)
       \<and> equals_op a b h =
           Inr (size_tv a = size_tv b
                \<and> (\<forall>i < unat (size_tv a). \<exists>x y. mem h (mData a + i) = Some x
                       \<and> mem h (mData b + i) = Some y \<and> eq_double x y))"
proof -
  have copy: "\<exists>c h'. TimeVectorBase_copy_ctor a h = Inr (c, h')
            \<and> elements c h' = elements a h
            \<and> elements a h' = elements a h
            \<and> (\<forall>j x. j < unat (size_tv c) \<longrightarrow> elements a (store (mData c + j) x h') = elements a h)
            \<and> (\<forall>k x h''. assign_tv c k x h' = Inr h'' \<longrightarrow> elements a h'' = elements a h)"
  proof -
    from copy_ctor_result [OF own_a] obtain h' where
      r: "TimeVectorBase_copy_ctor a h = Inr (\<lparr>mData = brk h, mSize = mSize a\<rparr>, h')"
      and b: "brk h' = brk h + unat (mSize a)"
      and m: "\<forall>c. mem h' c = (if brk h \<le> c \<and> c < brk h + unat (mSize a)
                                then mem h (mData a + (c - brk h)) else mem h c)"
      by blast
    have "\<forall>i<unat (mSize a). mem h (mData a + i) = mem h (mData a + i)" by simp
    from deep_copy [OF own_a b m this, of "\<lparr>mData = brk h, mSize = mSize a\<rparr>"] r
    show ?thesis by simp
  qed
  have assign: "\<exists>t h'. assign_op (p, b) (q, a) h = Inr (t, h')
              \<and> elements t h' = elements a h
              \<and> elements a h' = elements a h
              \<and> (\<forall>j x. j < unat (size_tv t) \<longrightarrow> elements a (store (mData t + j) x h') = elements a h)
              \<and> (\<forall>k x h''. assign_tv t k x h' = Inr h'' \<longrightarrow> elements a h'' = elements a h)"
    if ne: "p \<noteq> q" and sep: "separate b a"
  proof -
    let ?R = "\<lambda>c. if mData b \<le> c \<and> c < mData b + unat (mSize b) then None else mem h c"
    from assign_op_result [OF own_a own_b sep ne] obtain h' where
      r: "assign_op (p, b) (q, a) h = Inr (b\<lparr>mData := brk h, mSize := mSize a\<rparr>, h')"
      and br: "brk h' = brk h + unat (mSize a)"
      and m: "\<forall>c. mem h' c = (if brk h \<le> c \<and> c < brk h + unat (mSize a)
                                then mem h (mData a + (c - brk h)) else ?R c)"
      by blast
    have "\<forall>i<unat (mSize a). ?R (mData a + i) = mem h (mData a + i)"
      using sep by (auto simp: separate_def)
    from deep_copy [OF own_a br m this, of "b\<lparr>mData := brk h, mSize := mSize a\<rparr>"] r
    show ?thesis by simp
  qed
  have self: "assign_op (p, a) (p, a) h = Inr (a, h)"
    by (simp add: assign_op_def)
  show ?thesis
    using copy assign self equals_op_result [OF own_a own_b] by blast
qed

text \<open>The theorem at the two example period vectors, zeros and ones.\<close>

theorem copy_is_deep_and_equality_witness:
  "owned (fst example_periods) (snd example_ones)
   \<and> owned (fst example_ones) (snd example_ones)
   \<and> separate (fst example_ones) (fst example_periods)
   \<and> elements (fst example_periods) (snd example_ones) = [Some (Finite 0), Some (Finite 0), Some (Finite 0)]
   \<and> (\<exists>c h'. TimeVectorBase_copy_ctor (fst example_periods) (snd example_ones) = Inr (c, h')
         \<and> elements c h' = [Some (Finite 0), Some (Finite 0), Some (Finite 0)]
         \<and> elements (fst example_periods) (store (mData c + 1) (Finite 5) h')
             = [Some (Finite 0), Some (Finite 0), Some (Finite 0)])
   \<and> (\<exists>t h'. assign_op (100, fst example_ones) (200, fst example_periods) (snd example_ones) = Inr (t, h')
         \<and> elements t h' = [Some (Finite 0), Some (Finite 0), Some (Finite 0)])
   \<and> assign_op (100, fst example_periods) (100, fst example_periods) (snd example_ones)
       = Inr (fst example_periods, snd example_ones)
   \<and> equals_op (fst example_periods) (fst example_ones) (snd example_ones) = Inr False"
proof -
  let ?a = "fst example_periods" and ?b = "fst example_ones" and ?h = "snd example_ones"
  let ?zs = "[Some (Finite 0), Some (Finite 0), Some (Finite 0)]"
  note a = example_owned(1) and b = example_owned(2)
  have s: "separate ?b ?a"
    by (simp add: separate_def example_periods_fst example_ones_fst)
  have e: "elements ?a ?h = ?zs"
    by (simp add: elements_def example_periods_fst example_ones_mem upt_3)
  note T = copy_is_deep_and_equality [OF a b, of "100 :: nat" 200]
  from T obtain c h' where
    c1: "TimeVectorBase_copy_ctor ?a ?h = Inr (c, h')" and c2: "elements c h' = elements ?a ?h"
    and c3: "\<forall>j x. j < unat (size_tv c) \<longrightarrow> elements ?a (store (mData c + j) x h') = elements ?a ?h"
    by blast
  have "length (elements c h') = 3" using c2 e by simp
  then have "1 < unat (size_tv c)" by (simp add: length_elements)
  with c3 have c4: "elements ?a (store (mData c + 1) (Finite 5) h') = elements ?a ?h" by blast
  have w1: "\<exists>c h'. TimeVectorBase_copy_ctor ?a ?h = Inr (c, h') \<and> elements c h' = ?zs
         \<and> elements ?a (store (mData c + 1) (Finite 5) h') = ?zs"
    using c1 c2 c4 e by auto
  have "(100 :: nat) \<noteq> 200 \<and> separate ?b ?a" using s by simp
  with T obtain t k where "assign_op (100, ?b) (200, ?a) ?h = Inr (t, k)"
    and "elements t k = elements ?a ?h"
    by blast
  then have w2: "\<exists>t h'. assign_op (100, ?b) (200, ?a) ?h = Inr (t, h') \<and> elements t h' = ?zs"
    using e by auto
  from T have w3: "assign_op (100, ?a) (100, ?a) ?h = Inr (?a, ?h)" by blast
  have ne: "\<not> (\<forall>i<unat (size_tv ?a). \<exists>x y.
       mem ?h (mData ?a + i) = Some x \<and> mem ?h (mData ?b + i) = Some y \<and> eq_double x y)"
  proof
    assume "\<forall>i<unat (size_tv ?a). \<exists>x y.
       mem ?h (mData ?a + i) = Some x \<and> mem ?h (mData ?b + i) = Some y \<and> eq_double x y"
    moreover have "0 < unat (size_tv ?a)"
      by (simp add: size_tv_def example_periods_fst)
    ultimately have "\<exists>x y. mem ?h (mData ?a + 0) = Some x
        \<and> mem ?h (mData ?b + 0) = Some y \<and> eq_double x y" by blast
    then show False by (simp add: example_periods_fst example_ones_fst example_ones_mem eq_double_def)
  qed
  from T have "equals_op ?a ?b ?h =
           Inr (size_tv ?a = size_tv ?b
                \<and> (\<forall>i < unat (size_tv ?a). \<exists>x y. mem ?h (mData ?a + i) = Some x
                       \<and> mem ?h (mData ?b + i) = Some y \<and> eq_double x y))"
    by blast
  with ne have w4: "equals_op ?a ?b ?h = Inr False" by simp
  from a b s e w1 w2 w3 w4 show ?thesis by blast
qed

section \<open>Index access\<close>

text \<open>
  Claim C7, as the code has it. A year or a position outside the bounds fails the bounds
  assertion, for every \<^verbatim>\<open>YearVector\<close> and every \<^verbatim>\<open>PeriodVector\<close>. A year inside the bounds
  of a \<^verbatim>\<open>YearVector\<close> whose size is \<open>endYear - startYear + 1\<close>, and a position inside the
  bounds of a \<^verbatim>\<open>PeriodVector\<close>, all slots holding values as the constructors leave them,
  addresses a slot of the backing array; the reference to that slot is returned when
  the value stored there passes \<^verbatim>\<open>isValidNumber\<close>, and the second assertion fails when it
  does not. The size condition leaves out the one constructed vector that has years
  in bounds and another size: the vector for the years 0 to 4294967295, of size 0.
\<close>

theorem index_access_checked:
  "(y < ucast (mStartYear v) \<or> ucast (mEndYear v) < y \<longrightarrow>
      YearVector_index v y h = Inl BoundsAssertion)
 \<and> (live v h \<and> unat (size_tv v) = unat (mEndYear v) - unat (mStartYear v) + 1
      \<and> ucast (mStartYear v) \<le> y \<and> y \<le> ucast (mEndYear v) \<longrightarrow>
      unat y - unat (mStartYear v) < unat (size_tv v)
    \<and> (\<exists>x. mem h (mData v + (unat y - unat (mStartYear v))) = Some x
         \<and> YearVector_index v y h =
             (if isValidNumber x then Inr (mData v + (unat y - unat (mStartYear v)))
              else Inl ValidNumberAssertion)))
 \<and> (size_tv p \<le> i \<longrightarrow> PeriodVector_index p i h = Inl BoundsAssertion)
 \<and> (live p h \<and> i < size_tv p \<longrightarrow>
      (\<exists>x. mem h (mData p + unat i) = Some x
         \<and> PeriodVector_index p i h =
             (if isValidNumber x then Inr (mData p + unat i)
              else Inl ValidNumberAssertion)))"
proof -
  have yin: "unat y - unat (mStartYear v) < unat (size_tv v)
          \<and> (\<exists>x. mem h (mData v + (unat y - unat (mStartYear v))) = Some x
               \<and> YearVector_index v y h =
                   (if isValidNumber x then Inr (mData v + (unat y - unat (mStartYear v)))
                    else Inl ValidNumberAssertion))"
    if lv: "live v h"
      and sz: "unat (size_tv v) = unat (mEndYear v) - unat (mStartYear v) + 1"
      and lo: "ucast (mStartYear v) \<le> y" and hi: "y \<le> ucast (mEndYear v)"
  proof -
    have "unat (mStartYear v) \<le> unat y" "unat y \<le> unat (mEndYear v)"
      using year_in_range [OF lo hi] by simp_all
    then have "mStartYear v \<le> mEndYear v" by (simp add: word_le_nat_alt)
    then have inv: "YearVector_inv v h"
      using lv sz by (simp add: YearVector_inv_def size_tv_def)
    note s = YearVector_inv_slot [OF inv lo hi]
    from s(3) obtain x where x: "mem h (mData v + (unat y - unat (mStartYear v))) = Some x" ..
    from YearVector_index_inside [OF lo hi s(1) x] s(2) x show ?thesis
      by (simp add: size_tv_def)
  qed
  have pin: "\<exists>x. mem h (mData p + unat i) = Some x
               \<and> PeriodVector_index p i h =
                   (if isValidNumber x then Inr (mData p + unat i)
                    else Inl ValidNumberAssertion)"
    if lv: "live p h" and lt: "i < size_tv p"
  proof -
    have "unat i < unat (mSize p)" using lt by (simp add: size_tv_def word_less_nat_alt)
    then obtain x where x: "mem h (mData p + unat i) = Some x"
      using lv by (auto simp: live_iff)
    from PeriodVector_index_inside [OF lt x] x show ?thesis by simp
  qed
  show ?thesis
    using yin pin YearVector_index_outside [of y v h] PeriodVector_index_outside [of p i h]
    by blast
qed

text \<open>The theorem at the example vectors: the years 2001 and 2003, the positions 2 and 3.\<close>

theorem index_access_checked_witness:
  "live (fst example_years) (snd example_periods)
   \<and> unat (size_tv (fst example_years))
       = unat (mEndYear (fst example_years)) - unat (mStartYear (fst example_years)) + 1
   \<and> live (fst example_periods) (snd example_periods)
   \<and> YearVector_index (fst example_years) 2001 (snd example_periods) = Inr 2
   \<and> YearVector_index (fst example_years) 2003 (snd example_periods) = Inl BoundsAssertion
   \<and> PeriodVector_index (fst example_periods) 2 (snd example_periods) = Inr 6
   \<and> PeriodVector_index (fst example_periods) 3 (snd example_periods) = Inl BoundsAssertion"
proof -
  have a: "live (fst example_years) (snd example_periods)"
    using example_years_inv by (simp add: YearVector_inv_def)
  have n: "unat (size_tv (fst example_years))
       = unat (mEndYear (fst example_years)) - unat (mStartYear (fst example_years)) + 1"
    by (simp add: example_years_fst size_tv_def)
  note b = example_periods_live
  show ?thesis
    using a n b
      index_access_checked [where v = "fst example_years" and h = "snd example_periods"
        and p = "fst example_periods" and y = 2001 and i = 2]
      index_access_checked [where v = "fst example_years" and h = "snd example_periods"
        and p = "fst example_periods" and y = 2003 and i = 3]
    by (simp add: example_years_fst example_periods_fst example_periods_mem size_tv_def
        isValidNumber_def)
qed

text \<open>
  Claim C7 as written has every access within the bounds return a reference to the
  stored element. It fails in two ways. At a vector for the years 2000 to 2002
  constructed with the default value NaN, the year 2001 is within the bounds and the
  access fails the assertion on the stored value. At the vector constructed for the
  years 0 to 4294967295, whose size is 0, the year 0 is within the bounds and the
  access reads a cell outside the array, which holds nothing.
\<close>

theorem index_access_invalid_value_counterexample:
  "ucast (mStartYear (fst (YearVector_ctor 2000 2002 NaN heap0))) \<le> (2001 :: size_t)
   \<and> (2001 :: size_t) \<le> ucast (mEndYear (fst (YearVector_ctor 2000 2002 NaN heap0)))
   \<and> YearVector_index (fst (YearVector_ctor 2000 2002 NaN heap0)) 2001
        (snd (YearVector_ctor 2000 2002 NaN heap0)) = Inl ValidNumberAssertion
   \<and> ucast (mStartYear (fst (YearVector_ctor 0 4294967295 (Finite 0) heap0))) \<le> (0 :: size_t)
   \<and> (0 :: size_t) \<le> ucast (mEndYear (fst (YearVector_ctor 0 4294967295 (Finite 0) heap0)))
   \<and> unat (size_tv (fst (YearVector_ctor 0 4294967295 (Finite 0) heap0))) = 0
   \<and> YearVector_index (fst (YearVector_ctor 0 4294967295 (Finite 0) heap0)) 0
        (snd (YearVector_ctor 0 4294967295 (Finite 0) heap0)) = Inl InvalidAccess"
  by (simp add: YearVector_index_def YearVector_ctor_fst YearVector_ctor_mem isValidNumber_def
      size_tv_def)

section \<open>Validity of stored values\<close>

text \<open>
  Claim C9, as the code has it. The index operators check the stored value when the
  element is accessed, not when it is written: a reference is returned only for a slot
  whose value passes \<^verbatim>\<open>isValidNumber\<close>; a store through that reference puts any value
  into the slot; and the next access to the slot returns the reference again when the
  value written is valid, and fails the assertion when it is not.
\<close>

theorem write_unchecked_access_checked:
  "(YearVector_index v y h = Inr r \<longrightarrow>
      (\<exists>x0. mem h r = Some x0 \<and> isValidNumber x0)
    \<and> mem (store r x h) r = Some x
    \<and> YearVector_index v y (store r x h) =
        (if isValidNumber x then Inr r else Inl ValidNumberAssertion))
 \<and> (PeriodVector_index p i h = Inr q \<longrightarrow>
      (\<exists>x0. mem h q = Some x0 \<and> isValidNumber x0)
    \<and> mem (store q x h) q = Some x
    \<and> PeriodVector_index p i (store q x h) =
        (if isValidNumber x then Inr q else Inl ValidNumberAssertion))"
proof -
  have yv: "YearVector_index v y (store r x h) =
        (if isValidNumber x then Inr r else Inl ValidNumberAssertion)"
    if "YearVector_index v y h = Inr r"
    using YearVector_index_Inr(1-3) [OF that]
    by (simp add: YearVector_index_def store_mem)
  have pv: "PeriodVector_index p i (store q x h) =
        (if isValidNumber x then Inr q else Inl ValidNumberAssertion)"
    if "PeriodVector_index p i h = Inr q"
    using PeriodVector_index_Inr(1-2) [OF that]
    by (simp add: PeriodVector_index_def store_mem)
  show ?thesis
    using yv pv YearVector_index_Inr(4) [of v y h r] PeriodVector_index_Inr(3) [of p i h q]
    by (simp add: store_mem)
qed

text \<open>The theorem at the example vectors, writing 7 by year and an infinity by position.\<close>

theorem write_unchecked_access_checked_witness:
  "YearVector_index (fst example_years) 2001 (snd example_periods) = Inr 2
   \<and> YearVector_index (fst example_years) 2001 (store 2 (Finite 7) (snd example_periods)) = Inr 2
   \<and> PeriodVector_index (fst example_periods) 2 (snd example_periods) = Inr 6
   \<and> PeriodVector_index (fst example_periods) 2 (store 6 PosInf (snd example_periods))
       = Inl ValidNumberAssertion"
proof -
  have a: "YearVector_index (fst example_years) 2001 (snd example_periods) = Inr 2"
    by (simp add: YearVector_index_def example_years_fst example_periods_mem isValidNumber_def)
  have b: "PeriodVector_index (fst example_periods) 2 (snd example_periods) = Inr 6"
    by (simp add: PeriodVector_index_def example_periods_fst example_periods_mem
        isValidNumber_def size_tv_def)
  show ?thesis
    using a b
      write_unchecked_access_checked [of "fst example_years" 2001 "snd example_periods" 2
        "Finite 7" "fst example_periods" 2 6]
      write_unchecked_access_checked [of "fst example_years" 2001 "snd example_periods" 2
        PosInf "fst example_periods" 2 6]
    by (simp add: isValidNumber_def)
qed

text \<open>
  Claim C9 as written has every stored value valid after any write, and every access
  pass the assertion. Writing NaN through the reference for the year 2001 leaves NaN
  in the slot, and the next access to the year fails the assertion.
\<close>

theorem write_invalid_value_counterexample:
  "YearVector_index (fst example_years) 2001 (snd example_periods) = Inr 2
   \<and> mem (store 2 NaN (snd example_periods)) 2 = Some NaN
   \<and> \<not> isValidNumber NaN
   \<and> YearVector_index (fst example_years) 2001 (store 2 NaN (snd example_periods))
       = Inl ValidNumberAssertion"
  by (simp add: YearVector_index_def example_years_fst example_periods_mem isValidNumber_def
      store_mem)

section \<open>The last position\<close>

text \<open>
  Claim C10, as the code has it. For a size below \<open>2 ^ 31\<close>, the range in which the
  size survives the conversion to \<^verbatim>\<open>int\<close>, \<open>last\<close> returns the iterator to position
  \<open>size - 1\<close> when the size is at least 1, and the iterator to position 0, equal to
  \<open>begin\<close>, when the size is 0.
\<close>

theorem last_it_position:
  assumes "unat (size_tv v) < 2 ^ 31"
  shows "last_it v = Inr (if size_tv v = 0 then begin_it v
                          else Iter (mData v + (unat (size_tv v) - 1)))"
proof -
  have n: "sint (ucast (size_tv v) :: 32 word) = int (unat (size_tv v))"
    using assms by (rule sint_narrow)
  show ?thesis
  proof (cases "size_tv v = 0")
    case True
    then show ?thesis by (simp add: last_it_def begin_it_def)
  next
    case False
    then have "unat (size_tv v) \<noteq> 0" by (simp add: unat_eq_0)
    then have "nat (max (int (unat (size_tv v)) - 1) 0) = unat (size_tv v) - 1" by linarith
    moreover have "\<not> int (unat (size_tv v)) - 1 < - (2 ^ 31)"
    proof -
      have "(0::int) \<le> int (unat (size_tv v))" by (rule of_nat_0_le_iff)
      moreover have "- (2 ^ 31) < (-1::int)" by simp
      ultimately show ?thesis by linarith
    qed
    ultimately show ?thesis using False by (simp only: last_it_def n Let_def if_False)
  qed
qed

text \<open>The theorem at a vector of three slots and at an empty vector.\<close>

theorem last_it_position_witness:
  "unat (size_tv (fst (TimeVectorBase_ctor 3 (Finite 0) heap0))) < (2 :: nat) ^ 31
   \<and> last_it (fst (TimeVectorBase_ctor 3 (Finite 0) heap0)) = Inr (Iter 3)
   \<and> unat (size_tv (fst (TimeVectorBase_ctor 0 (Finite 0) heap0))) < (2 :: nat) ^ 31
   \<and> last_it (fst (TimeVectorBase_ctor 0 (Finite 0) heap0))
       = Inr (begin_it (fst (TimeVectorBase_ctor 0 (Finite 0) heap0)))"
proof -
  have a: "unat (size_tv (fst (TimeVectorBase_ctor 3 (Finite 0) heap0))) < (2 :: nat) ^ 31"
    by (simp add: size_tv_def TimeVectorBase_ctor_def init_fst)
  have b: "unat (size_tv (fst (TimeVectorBase_ctor 0 (Finite 0) heap0))) < (2 :: nat) ^ 31"
    by (simp add: size_tv_def TimeVectorBase_ctor_def init_fst)
  show ?thesis
    using a b last_it_position [OF a] last_it_position [OF b]
    by (simp add: size_tv_def TimeVectorBase_ctor_def init_fst)
qed

text \<open>
  Claim C10 as written, for every container of size at least 1, fails at a vector of
  \<open>2 ^ 31 + 1\<close> slots: the size converts to a negative \<^verbatim>\<open>int\<close>, the maximum with 0 is 0,
  and \<open>last\<close> returns \<open>begin\<close> instead of the position \<open>size - 1\<close>.
\<close>

theorem last_it_large_counterexample:
  "unat (size_tv (fst (TimeVectorBase_ctor 2147483649 (Finite 0) heap0))) = 2147483649
   \<and> last_it (fst (TimeVectorBase_ctor 2147483649 (Finite 0) heap0))
       = Inr (begin_it (fst (TimeVectorBase_ctor 2147483649 (Finite 0) heap0)))
   \<and> last_it (fst (TimeVectorBase_ctor 2147483649 (Finite 0) heap0))
       \<noteq> Inr (Iter (mData (fst (TimeVectorBase_ctor 2147483649 (Finite 0) heap0))
                       + (unat (size_tv (fst (TimeVectorBase_ctor 2147483649 (Finite 0) heap0))) - 1)))"
  by (simp add: TimeVectorBase_ctor_def init_fst size_tv_def last_it_def begin_it_def)

section \<open>Calibration of all units\<close>

text \<open>
  Claim C8. \<open>isAllCalibrated\<close> is true if and only if every owned unit reports
  calibrated for the period; one unit that does not makes it false.
\<close>

theorem isAllCalibrated_iff_every_unit:
  "isAllCalibrated unitCalibrated w period calAccuracy printWarnings
     \<longleftrightarrow> (\<forall>r \<in> set (regions w). unitCalibrated r period calAccuracy printWarnings)"
  by (simp add: isAllCalibrated_def fold_all)

text \<open>The theorem at two units, the second one not calibrated in period 2.\<close>

theorem isAllCalibrated_iff_every_unit_witness:
  "isAllCalibrated (\<lambda>r period calAccuracy printWarnings. r period)
      \<lparr>regions = [\<lambda>p. True, \<lambda>p. p \<noteq> 2], doCalibrations = True\<rparr> 1 (1 / 100) False
   \<and> \<not> isAllCalibrated (\<lambda>r period calAccuracy printWarnings. r period)
      \<lparr>regions = [\<lambda>p. True, \<lambda>p. p \<noteq> 2], doCalibrations = True\<rparr> 2 (1 / 100) False"
  using isAllCalibrated_iff_every_unit [of "\<lambda>r period calAccuracy printWarnings. r period"
      "\<lparr>regions = [\<lambda>p. True, \<lambda>p. p \<noteq> 2], doCalibrations = True\<rparr>" 1 "1 / 100" False]
    isAllCalibrated_iff_every_unit [of "\<lambda>r period calAccuracy printWarnings. r period"
      "\<lparr>regions = [\<lambda>p. True, \<lambda>p. p \<noteq> 2], doCalibrations = True\<rparr>" 2 "1 / 100" False]
  by simp

end
